theory Spec2Isabelle
  imports Main "HOL-Library.Sublist"
begin

section \<open>Python text\<close>

text \<open>
  A Python \<open>str\<close> is a sequence of Unicode code points, so it is modelled as a list of
  naturals (one number per code point).  The category names of the program are Chinese
  words; they appear below as their code points.  Dictionary keys and attribute names are
  ASCII identifiers in every place the program uses them and are written as HOL strings.
\<close>

type_synonym py_str = "nat list"

text \<open>
  \<open>str.isspace\<close> on one code point: the characters that \<open>str.strip()\<close> without
  argument removes (TAB..CR, FS..US and SPACE, NEL, NBSP, OGHAM SPACE, EN QUAD..HAIR SPACE,
  LINE and PARAGRAPH SEPARATOR, NARROW NBSP, MEDIUM MATHEMATICAL SPACE, IDEOGRAPHIC SPACE).
\<close>

definition is_space :: "nat \<Rightarrow> bool" where
  "is_space c \<longleftrightarrow>
     (9 \<le> c \<and> c \<le> 13) \<or> (28 \<le> c \<and> c \<le> 32) \<or> c = 133 \<or> c = 160 \<or> c = 5760 \<or>
     (8192 \<le> c \<and> c \<le> 8202) \<or> c = 8232 \<or> c = 8233 \<or> c = 8239 \<or> c = 8287 \<or> c = 12288"

text \<open>\<open>s.strip()\<close>: drop the whitespace run at the left end, then the one at the right end.\<close>

definition strip :: "py_str \<Rightarrow> py_str" where
  "strip s = rev (dropWhile is_space (rev (dropWhile is_space s)))"

text \<open>
  Values of type \<open>Optional[str]\<close> are \<open>py_str option\<close>.  \<open>truthy\<close> is Python's
  truth test on them (\<open>None\<close> and the empty string are false), \<open>fmt\<close> is what an
  f-string inserts for them (\<open>None\<close> prints as the four letters N, o, n, e).
\<close>

definition truthy :: "py_str option \<Rightarrow> bool" where
  "truthy v = (case v of None \<Rightarrow> False | Some s \<Rightarrow> s \<noteq> [])"

definition fmt :: "py_str option \<Rightarrow> py_str" where
  "fmt v = (case v of None \<Rightarrow> [78, 111, 110, 101] | Some s \<Rightarrow> s)"

text \<open>
  A dictionary with string keys and \<open>Optional[str]\<close> values.  \<open>d.get(k)\<close> answers
  \<open>None\<close> both for a missing key and for a key bound to \<open>None\<close>; \<open>d.get(k, v)\<close>
  answers \<open>v\<close> only for a missing key.
\<close>

type_synonym py_dict = "string \<rightharpoonup> py_str option"

definition dict_get :: "py_dict \<Rightarrow> string \<Rightarrow> py_str option" where
  "dict_get d k = (case d k of None \<Rightarrow> None | Some v \<Rightarrow> v)"

definition dict_get_default :: "py_dict \<Rightarrow> string \<Rightarrow> py_str option \<Rightarrow> py_str option" where
  "dict_get_default d k v0 = (case d k of None \<Rightarrow> v0 | Some v \<Rightarrow> v)"

section \<open>model.py: the classification gate and the extraction pipeline\<close>

text \<open>
  \<open>TARGET_CATEGORIES\<close> holds, in this order, the names U+7814 U+7A76 U+524D U+6CBF
  (research frontier), U+4EA7 U+4E1A U+5E94 U+7528 (industry application) and
  U+653F U+7B56 U+8BA1 U+5212 (policy plan).  \<open>OTHER\<close> is the label U+5176 U+4ED6 that
  \<open>_normalize_category\<close> returns for everything else.
\<close>

definition TARGET_CATEGORIES :: "py_str list" where
  "TARGET_CATEGORIES =
     [[30740, 31350, 21069, 27839], [20135, 19994, 24212, 29992], [25919, 31574, 35745, 21010]]"

definition OTHER :: py_str where
  "OTHER = [20854, 20182]"

text \<open>The three output fields of the \<open>IntelligenceExtractor\<close> signature.\<close>

record extraction =
  title :: py_str
  short_summary :: py_str
  detailed_summary :: py_str

text \<open>The dataclass \<open>NewsMetadata\<close>.\<close>

record NewsMetadata =
  raw_content :: py_str
  release_time :: "py_str option"
  source_institution :: "py_str option"
  url :: "py_str option"

text \<open>
  The \<open>metadata\<close> argument of \<open>forward\<close> is \<open>None\<close>, a mapping or a
  \<open>NewsMetadata\<close> object; the argument as a whole is a \<open>metadata_arg option\<close>.
\<close>

datatype metadata_arg = MappingArg py_dict | NewsMetadataArg NewsMetadata

text \<open>
  The two language-model predictors are outside the program.  Each is a parameter of the
  pipeline: a function from the number of model calls made so far (the same input may be
  answered differently at another call) and the call's inputs to the fields it returns.
  The classifier's \<open>category\<close> is an \<open>Optional[str]\<close>.  Every call is recorded in a log,
  which is the state that \<open>forward\<close> threads through.
\<close>

datatype lm_call = ClassifierCall py_str | ExtractorCall py_str py_str

record NewsPipeline =
  classifier :: "nat \<Rightarrow> py_str \<Rightarrow> py_str option"
  extractor :: "nat \<Rightarrow> py_str \<Rightarrow> py_str \<Rightarrow> extraction"

text \<open>
  \<open>_normalize_category\<close>.  \<open>target in category\<close> is substring containment, which is
  \<open>sublist\<close> on lists of code points; \<open>scan_targets\<close> is the \<open>for\<close> loop with its
  early \<open>return\<close>.
\<close>

fun scan_targets :: "py_str list \<Rightarrow> py_str \<Rightarrow> py_str" where
  "scan_targets [] category = OTHER"
| "scan_targets (target # targets) category =
     (if sublist target category then target else scan_targets targets category)"

definition normalize_category :: "py_str option \<Rightarrow> py_str" where
  "normalize_category category =
     (case category of
        None \<Rightarrow> OTHER
      | Some c \<Rightarrow> if c = [] then OTHER else scan_targets TARGET_CATEGORIES (strip c))"

text \<open>\<open>dataclasses.asdict\<close> on a \<open>NewsMetadata\<close>.\<close>

definition asdict :: "NewsMetadata \<Rightarrow> py_dict" where
  "asdict m =
     [''raw_content'' \<mapsto> Some (raw_content m), ''release_time'' \<mapsto> release_time m,
      ''source_institution'' \<mapsto> source_institution m, ''url'' \<mapsto> url m]"

text \<open>\<open>_extract_metadata\<close>.\<close>

definition extract_metadata :: "metadata_arg option \<Rightarrow> py_str \<Rightarrow> py_dict" where
  "extract_metadata metadata fallback_content =
     (case metadata of
        None \<Rightarrow>
          [''raw_content'' \<mapsto> Some fallback_content, ''release_time'' \<mapsto> None,
           ''source_institution'' \<mapsto> None, ''url'' \<mapsto> None]
      | Some m \<Rightarrow>
          (let meta_dict = (case m of NewsMetadataArg d \<Rightarrow> asdict d | MappingArg d \<Rightarrow> d)
           in [''raw_content'' \<mapsto> dict_get_default meta_dict ''raw_content'' (Some fallback_content),
               ''release_time'' \<mapsto> dict_get meta_dict ''release_time'',
               ''source_institution'' \<mapsto> dict_get meta_dict ''source_institution'',
               ''url'' \<mapsto> dict_get meta_dict ''url'']))"

text \<open>
  \<open>NewsPipeline.forward\<close>.  The result is the returned value (\<open>None\<close> or the record, a
  dictionary) together with the log of model calls after the invocation.
  \<open>result.update(d)\<close> is \<open>result ++ d\<close>.
\<close>

definition forward ::
  "NewsPipeline \<Rightarrow> py_str \<Rightarrow> metadata_arg option \<Rightarrow> lm_call list \<Rightarrow> py_dict option \<times> lm_call list"
where
  "forward self content metadata log =
     (let classification = classifier self (length log) content;
          log1 = log @ [ClassifierCall content];
          normalized_category = normalize_category classification
      in if normalized_category \<notin> set TARGET_CATEGORIES then (None, log1)
         else
           (let extraction = extractor self (length log1) content normalized_category;
                log2 = log1 @ [ExtractorCall content normalized_category];
                result =
                  [''category'' \<mapsto> Some normalized_category,
                   ''title'' \<mapsto> Some (strip (title extraction)),
                   ''short_summary'' \<mapsto> Some (strip (short_summary extraction)),
                   ''detailed_summary'' \<mapsto> Some (strip (detailed_summary extraction))]
            in (Some (result ++ extract_metadata metadata content), log2)))"

section \<open>main.py: the batch driver\<close>

text \<open>
  The state of a run of \<open>process_records\<close>: the log of model calls, the lines appended to
  the JSONL writer (one dictionary per line, in order) and the counter \<open>written\<close>.
\<close>

record run_state =
  lm_log :: "lm_call list"
  sink :: "py_dict list"
  written :: nat

text \<open>
  An input row is a dictionary from field names to strings, as \<open>read_news_file\<close> builds it;
  \<open>row_content\<close> is \<open>record.get("raw_content", "")\<close>.
  \<open>process_record\<close> is the body of the \<open>for\<close> loop of \<open>process_records\<close>; both
  \<open>continue\<close> statements leave the sink and the counter as they are.
\<close>

definition row_content :: "(string \<rightharpoonup> py_str) \<Rightarrow> py_str" where
  "row_content rec = (case rec ''raw_content'' of None \<Rightarrow> [] | Some v \<Rightarrow> v)"

definition process_record :: "NewsPipeline \<Rightarrow> (string \<rightharpoonup> py_str) \<Rightarrow> run_state \<Rightarrow> run_state" where
  "process_record pipeline rec st =
     (let metadata =
            \<lparr> raw_content = row_content rec,
              release_time = rec ''release_time'',
              source_institution = rec ''source_institution'',
              url = rec ''url'' \<rparr>
      in if strip (raw_content metadata) = [] then st
         else
           (case forward pipeline (raw_content metadata) (Some (NewsMetadataArg metadata)) (lm_log st) of
              (None, log') \<Rightarrow> st\<lparr>lm_log := log'\<rparr>
            | (Some prediction, log') \<Rightarrow>
                (let short = dict_get prediction ''short_summary'';
                     detailed = dict_get prediction ''detailed_summary'';
                     prediction' =
                       (if truthy short \<and> truthy detailed
                        then prediction(''detailed_summary'' \<mapsto> Some (fmt short @ [10] @ fmt detailed))
                        else prediction)
                 in st\<lparr>lm_log := log', sink := sink st @ [prediction'], written := written st + 1\<rparr>)))"

fun process_records :: "NewsPipeline \<Rightarrow> (string \<rightharpoonup> py_str) list \<Rightarrow> run_state \<Rightarrow> run_state" where
  "process_records pipeline [] st = st"
| "process_records pipeline (rec # records) st =
     process_records pipeline records (process_record pipeline rec st)"

text \<open>The state in which \<open>process_records\<close> starts: nothing called, nothing written.\<close>

definition initial_state :: run_state where
  "initial_state = \<lparr> lm_log = [], sink = [], written = 0 \<rparr>"

section \<open>optimize.py: training examples, the metric and the optimizer call\<close>

text \<open>
  What \<open>json.load\<close> returns.  A number is kept as its literal, since no path of the program
  reads one; an object is the list of its items, with the ASCII keys as HOL strings.
\<close>

datatype json =
    JNull
  | JBool bool
  | JNumber string
  | JString py_str
  | JArray "json list"
  | JObject "(string \<times> json) list"

datatype py_error = FileNotFoundError | JSONDecodeError | TypeError | KeyError string

text \<open>
  The example file as \<open>load_training_examples\<close> meets it: absent (\<open>path.exists()\<close> is
  false), present but rejected by \<open>json.load\<close>, or present with a parsed value.
\<close>

datatype example_source = Missing | Unparseable | Parsed json

text \<open>
  A \<open>dspy.Example\<close> with the five fields the loader gives it and the input keys set by
  \<open>with_inputs\<close>.  The field values are whatever the file holds.
\<close>

record Example =
  content :: json
  category :: json
  title :: json
  short_summary :: json
  detailed_summary :: json
  inputs :: "string list"

text \<open>
  \<open>item[key]\<close> with a string key: only a dictionary can be subscripted so, and a missing
  key raises \<open>KeyError\<close>.
\<close>

definition subscript :: "json \<Rightarrow> string \<Rightarrow> py_error + json" where
  "subscript item key =
     (case item of
        JObject kv \<Rightarrow> (case map_of kv key of None \<Rightarrow> Inl (KeyError key) | Some v \<Rightarrow> Inr v)
      | _ \<Rightarrow> Inl TypeError)"

text \<open>The body of the loader's loop: the five subscripts are evaluated in this order.\<close>

definition make_example :: "json \<Rightarrow> py_error + Example" where
  "make_example item =
     (case subscript item ''content'' of Inl e \<Rightarrow> Inl e | Inr c \<Rightarrow>
     (case subscript item ''category'' of Inl e \<Rightarrow> Inl e | Inr g \<Rightarrow>
     (case subscript item ''title'' of Inl e \<Rightarrow> Inl e | Inr t \<Rightarrow>
     (case subscript item ''short_summary'' of Inl e \<Rightarrow> Inl e | Inr s \<Rightarrow>
     (case subscript item ''detailed_summary'' of Inl e \<Rightarrow> Inl e | Inr d \<Rightarrow>
        Inr \<lparr> content = c, category = g, title = t, short_summary = s,
              detailed_summary = d, inputs = [''content''] \<rparr>)))))"

fun build_examples :: "json list \<Rightarrow> py_error + Example list" where
  "build_examples [] = Inr []"
| "build_examples (item # items) =
     (case make_example item of
        Inl e \<Rightarrow> Inl e
      | Inr example \<Rightarrow>
          (case build_examples items of Inl e \<Rightarrow> Inl e | Inr examples \<Rightarrow> Inr (example # examples)))"

text \<open>
  The values the loop iterates over: a dictionary is first wrapped into a one-element list,
  a list gives its elements, a string its characters, and \<open>None\<close>, a boolean or a number
  cannot be iterated.
\<close>

definition items_of :: "json \<Rightarrow> py_error + json list" where
  "items_of raw_data =
     (case raw_data of
        JObject kv \<Rightarrow> Inr [raw_data]
      | JArray items \<Rightarrow> Inr items
      | JString s \<Rightarrow> Inr (map (\<lambda>c. JString [c]) s)
      | _ \<Rightarrow> Inl TypeError)"

definition load_training_examples :: "example_source \<Rightarrow> py_error + Example list" where
  "load_training_examples source =
     (case source of
        Missing \<Rightarrow> Inl FileNotFoundError
      | Unparseable \<Rightarrow> Inl JSONDecodeError
      | Parsed raw_data \<Rightarrow>
          (case items_of raw_data of Inl e \<Rightarrow> Inl e | Inr items \<Rightarrow> build_examples items))"

text \<open>
  The prediction handed to the metric is what the pipeline returned: \<open>None\<close>, a dictionary,
  or an object whose attributes are read with \<open>getattr\<close>.  \<open>_safe_get\<close> answers \<open>None\<close>
  for a missing key and for a missing attribute (\<open>None\<close> has neither of the two
  attributes the metric asks for).
\<close>

datatype prediction = PredNone | PredDict py_dict | PredObject py_dict

definition safe_get :: "prediction \<Rightarrow> string \<Rightarrow> py_str option" where
  "safe_get pred field =
     (case pred of
        PredDict d \<Rightarrow> dict_get d field
      | PredObject attrs \<Rightarrow> dict_get_default attrs field None
      | PredNone \<Rightarrow> None)"

text \<open>
  An \<open>Optional[str]\<close> as a value comparable with a field of the example file: Python's
  \<open>==\<close> holds between \<open>None\<close> and \<open>None\<close> only, and between a string and an equal
  string only.
\<close>

definition py_value :: "py_str option \<Rightarrow> json" where
  "py_value v = (case v of None \<Rightarrow> JNull | Some s \<Rightarrow> JString s)"

definition evaluation_metric :: "Example \<Rightarrow> prediction \<Rightarrow> bool" where
  "evaluation_metric gold pred =
     (let category_match = (py_value (safe_get pred ''category'') = Example.category gold);
          detailed_ok = truthy (safe_get pred ''detailed_summary'')
      in category_match \<and> detailed_ok)"

text \<open>
  The optimizer judges the value that \<open>forward\<close> returned: \<open>None\<close> for a gated
  article, the dictionary otherwise.
\<close>

definition metric_input :: "py_dict option \<Rightarrow> prediction" where
  "metric_input returned = (case returned of None \<Rightarrow> PredNone | Some d \<Rightarrow> PredDict d)"

text \<open>
  How the metric is called.  Its signature is \<open>(gold, pred, **_)\<close>: two positional
  parameters, and a dictionary that takes every further keyword argument.  A call
  \<open>evaluation_metric(gold, pred, *extra, **kwargs)\<close> therefore raises \<open>TypeError\<close> when
  it passes a third positional argument, and when a keyword names \<open>gold\<close> or \<open>pred\<close> a
  second time; in every other case the body runs.  The further arguments are never read,
  so their values are left open (\<open>py_object\<close>).
\<close>

datatype py_object = Object

definition call_evaluation_metric ::
  "Example \<Rightarrow> prediction \<Rightarrow> py_object list \<Rightarrow> (string \<times> py_object) list \<Rightarrow> py_error + bool"
where
  "call_evaluation_metric gold pred extra kwargs =
     (case extra of
        x # xs \<Rightarrow> Inl TypeError
      | [] \<Rightarrow>
          if ''gold'' \<in> set (map fst kwargs) then Inl TypeError
          else if ''pred'' \<in> set (map fst kwargs) then Inl TypeError
          else Inr (evaluation_metric gold pred))"

text \<open>
  \<open>main\<close> of the optimizer.  \<open>BootstrapFewShot\<close>, its \<open>compile\<close> and the \<open>save\<close> of
  the compiled model belong to the library, which is not part of the program: both calls
  are parameters of \<open>main\<close>, and each either returns or raises an exception of the
  library (of a type \<open>'x\<close>) that \<open>main\<close> lets through.  Every model call of the
  optimizer happens inside \<open>compile\<close>.  The teleprompter gets the metric as the callable
  it is, with the call protocol above.  The result of \<open>main\<close> is its outcome (it returned,
  the code of \<open>optimize.py\<close> raised, or an exception of the library passed through) and
  the calls it made to the library.
\<close>

record bootstrap_config =
  metric :: "Example \<Rightarrow> prediction \<Rightarrow> py_object list \<Rightarrow> (string \<times> py_object) list \<Rightarrow> py_error + bool"
  max_bootstrapped_demos :: nat
  max_labeled_demos :: nat

datatype 'm optimizer_event = Compile bootstrap_config "Example list" | Save 'm

datatype 'x outcome = Returned | Raised py_error | Propagated 'x

definition main ::
  "(bootstrap_config \<Rightarrow> Example list \<Rightarrow> 'x + 'm) \<Rightarrow> ('m \<Rightarrow> 'x option) \<Rightarrow> example_source \<Rightarrow>
     'x outcome \<times> 'm optimizer_event list"
where
  "main compile save source =
     (case load_training_examples source of
        Inl e \<Rightarrow> (Raised e, [])
      | Inr trainset \<Rightarrow>
          (let teleprompter =
                 \<lparr> metric = call_evaluation_metric,
                   max_bootstrapped_demos = min 4 (length trainset),
                   max_labeled_demos = length trainset \<rparr>
           in case compile teleprompter trainset of
                Inl x \<Rightarrow> (Propagated x, [Compile teleprompter trainset])
              | Inr compiled_model \<Rightarrow>
                  (case save compiled_model of
                     Some x \<Rightarrow>
                       (Propagated x, [Compile teleprompter trainset, Save compiled_model])
                   | None \<Rightarrow>
                       (Returned, [Compile teleprompter trainset, Save compiled_model]))))"

section \<open>Notions of the specification\<close>

text \<open>
  The normalization as the specification words it: an empty or missing label is forced to
  the other-label; otherwise the three target names are tried in their order on the raw
  label, the first that occurs in it as a substring wins, and the other-label is the
  answer when none occurs.
\<close>

definition normalize_spec :: "py_str option \<Rightarrow> py_str" where
  "normalize_spec label =
     (case label of
        None \<Rightarrow> OTHER
      | Some l \<Rightarrow>
          if l = [] then OTHER
          else (case find (\<lambda>name. sublist name l) TARGET_CATEGORIES of
                  Some name \<Rightarrow> name
                | None \<Rightarrow> OTHER))"

text \<open>
  For an invocation of \<open>forward\<close> on the text \<open>c\<close> that starts with the log \<open>log\<close>:
  the normalized category it computes, and the fields its extractor call answers.
\<close>

definition normalized :: "NewsPipeline \<Rightarrow> py_str \<Rightarrow> lm_call list \<Rightarrow> py_str" where
  "normalized p c log = normalize_category (classifier p (length log) c)"

definition extracted :: "NewsPipeline \<Rightarrow> py_str \<Rightarrow> lm_call list \<Rightarrow> extraction" where
  "extracted p c log = extractor p (Suc (length log)) c (normalized p c log)"

text \<open>A text without leading and without trailing whitespace.\<close>

definition trimmed :: "py_str \<Rightarrow> bool" where
  "trimmed s \<longleftrightarrow> s = [] \<or> (\<not> is_space (hd s) \<and> \<not> is_space (last s))"

text \<open>The values of one field in the lines written to the sink, line by line.\<close>

definition column :: "string \<Rightarrow> py_dict list \<Rightarrow> py_str option list" where
  "column k ws = map (\<lambda>w. dict_get w k) ws"

section \<open>Scenarios of the specification\<close>

text \<open>
  Concrete inputs on which the program is run below.  \<open>constant_pipeline\<close> is a pipeline
  whose classifier answers every call with the given label and whose extractor answers
  every call with the given fields.  The texts are those of the scenarios: the article
  and the institution of Scenario A, the label of Scenario A (a sentence that contains
  the policy-plan name), the label of Scenario B (an entertainment label) and the detailed
  summary of Scenario C.
\<close>

definition constant_pipeline :: "py_str option \<Rightarrow> extraction \<Rightarrow> NewsPipeline" where
  "constant_pipeline label answer =
     \<lparr> classifier = (\<lambda>n text. label), extractor = (\<lambda>n text name. answer) \<rparr>"

definition article_A :: py_str where
  "article_A = [26576, 26426, 26500, 21457, 24067, 65, 73, 33455, 29255, 26032, 25919, 31574, 8230]"

definition institution_A :: py_str where
  "institution_A = [88, 37096, 22996]"

definition label_A :: py_str where
  "label_A = [36825, 26159, 25919, 31574, 35745, 21010, 31867, 26032, 38395]"

definition label_B :: py_str where
  "label_B = [23089, 20048, 20843, 21350]"

text \<open>The input row of Scenario A, and a row whose content is blanks and a line feed.\<close>

definition row_A :: "string \<rightharpoonup> py_str" where
  "row_A = [''raw_content'' \<mapsto> article_A, ''source_institution'' \<mapsto> institution_A]"

definition row_blank :: "string \<rightharpoonup> py_str" where
  "row_blank = [''raw_content'' \<mapsto> [32, 12288, 10], ''url'' \<mapsto> [117]]"

definition points_C :: py_str where
  "points_C = [40, 49, 41, 35201, 28857, 19968, 40, 50, 41, 35201, 28857, 20108]"


definition example_A :: Example where
  "example_A =
     \<lparr> content = JString article_A, category = JString (TARGET_CATEGORIES ! 2),
       title = JString [84], short_summary = JString [83],
       detailed_summary = JString points_C, inputs = [''content''] \<rparr>"


section \<open>Normalization of the classifier's label\<close>

lemma sublist_dropWhile_eq:
  assumes "xs \<noteq> []" and "\<forall>x\<in>set xs. \<not> P x"
  shows "sublist xs (dropWhile P ys) = sublist xs ys"
proof (induction ys)
  case Nil
  show ?case by simp
next
  case (Cons y ys)
  show ?case
  proof (cases "P y")
    case True
    from assms obtain x xs' where xs: "xs = x # xs'" and "\<not> P x"
      by (cases xs) auto
    with True have "\<not> prefix xs (y # ys)" by auto
    with True Cons show ?thesis by (simp add: sublist_Cons_right)
  next
    case False
    then show ?thesis by simp
  qed
qed

lemma sublist_strip:
  assumes "t \<noteq> []" and "\<forall>x\<in>set t. \<not> is_space x"
  shows "sublist t (strip c) = sublist t c"
proof -
  have r: "rev t \<noteq> []" "\<forall>x\<in>set (rev t). \<not> is_space x" using assms by simp_all
  have "sublist t (strip c) = sublist (rev t) (dropWhile is_space (rev (dropWhile is_space c)))"
    by (simp add: strip_def sublist_rev_right)
  also have "\<dots> = sublist (rev t) (rev (dropWhile is_space c))"
    by (rule sublist_dropWhile_eq [OF r])
  also have "\<dots> = sublist t (dropWhile is_space c)" by simp
  also have "\<dots> = sublist t c" by (rule sublist_dropWhile_eq [OF assms])
  finally show ?thesis .
qed

lemma target_no_space:
  "t \<in> set TARGET_CATEGORIES \<Longrightarrow> t \<noteq> [] \<and> (\<forall>x\<in>set t. \<not> is_space x)"
  by (auto simp: TARGET_CATEGORIES_def is_space_def)

lemma scan_targets_strip:
  "set ts \<subseteq> set TARGET_CATEGORIES \<Longrightarrow> scan_targets ts (strip c) = scan_targets ts c"
  by (induction ts) (auto simp: sublist_strip target_no_space)

lemma scan_targets_find:
  "scan_targets ts c = (case find (\<lambda>t. sublist t c) ts of None \<Rightarrow> OTHER | Some t \<Rightarrow> t)"
  by (induction ts) auto

lemma normalize_category_Some:
  "normalize_category (Some l) = scan_targets TARGET_CATEGORIES l"
proof (cases "l = []")
  case True
  then show ?thesis by (simp add: normalize_category_def TARGET_CATEGORIES_def)
next
  case False
  then show ?thesis by (simp add: normalize_category_def scan_targets_strip)
qed

lemma OTHER_not_target: "OTHER \<notin> set TARGET_CATEGORIES"
  by (simp add: OTHER_def TARGET_CATEGORIES_def)

lemma normalize_category_range:
  "normalize_category L \<in> set TARGET_CATEGORIES \<or> normalize_category L = OTHER"
proof -
  have "scan_targets ts c \<in> set ts \<or> scan_targets ts c = OTHER" for ts c
    by (induction ts) auto
  then show ?thesis
    by (cases L) (auto simp: normalize_category_Some normalize_category_def)
qed

lemma scan_targets_range: "scan_targets ts c \<in> set ts \<or> scan_targets ts c = OTHER"
  by (induction ts) auto

lemma scan_targets_result:
  "scan_targets ts c = OTHER \<and> (\<forall>t\<in>set ts. \<not> sublist t c) \<or>
   scan_targets ts c \<in> set ts \<and> sublist (scan_targets ts c) c"
  by (induction ts) auto

lemma scan_targets_index:
  assumes "distinct ts" and "OTHER \<notin> set ts" and "i < length ts"
  shows "scan_targets ts c = ts ! i \<longleftrightarrow> sublist (ts ! i) c \<and> (\<forall>j<i. \<not> sublist (ts ! j) c)"
  using assms
proof (induction ts arbitrary: i)
  case Nil
  then show ?case by simp
next
  case (Cons t ts)
  show ?case
  proof (cases i)
    case 0
    have "scan_targets ts c \<noteq> t"
      using scan_targets_range [of ts c] Cons.prems by auto
    with 0 show ?thesis by auto
  next
    case (Suc k)
    with Cons.prems have k: "k < length ts" "distinct ts" "OTHER \<notin> set ts" "t \<noteq> ts ! k"
      by auto
    have IH: "scan_targets ts c = ts ! k \<longleftrightarrow> sublist (ts ! k) c \<and> (\<forall>j<k. \<not> sublist (ts ! j) c)"
      using Cons.IH k by blast
    have all: "(\<forall>j<Suc k. \<not> sublist ((t # ts) ! j) c) \<longleftrightarrow> \<not> sublist t c \<and> (\<forall>j<k. \<not> sublist (ts ! j) c)"
      by (auto simp: less_Suc_eq_0_disj)
    show ?thesis using IH k(4) unfolding Suc all by auto
  qed
qed

text \<open>
  Claim C2.  \<open>_normalize_category\<close> computes the normalization of the specification: a
  missing or empty label gives the other-label; otherwise the three target names are tried
  in their fixed order and the first that occurs as a substring of the raw label is
  returned (stripping the label changes nothing, since no target name contains
  whitespace).  The result is a target name exactly when some target name occurs in the
  label; it is the target at position \<open>i\<close> exactly when that name occurs and no earlier
  one does; and it is the other-label when no target name occurs.
\<close>

theorem normalize_category_correct:
  "normalize_category L = normalize_spec L \<and>
   normalize_category None = OTHER \<and>
   normalize_category (Some []) = OTHER \<and>
   (normalize_category (Some l) \<in> set TARGET_CATEGORIES \<longleftrightarrow>
      (\<exists>t\<in>set TARGET_CATEGORIES. sublist t l)) \<and>
   (\<forall>i<length TARGET_CATEGORIES.
      normalize_category (Some l) = TARGET_CATEGORIES ! i \<longleftrightarrow>
        sublist (TARGET_CATEGORIES ! i) l \<and> (\<forall>j<i. \<not> sublist (TARGET_CATEGORIES ! j) l)) \<and>
   ((\<forall>t\<in>set TARGET_CATEGORIES. \<not> sublist t l) \<longrightarrow> normalize_category (Some l) = OTHER)"
proof -
  have spec: "normalize_category L = normalize_spec L"
  proof (cases L)
    case None
    then show ?thesis by (simp add: normalize_spec_def normalize_category_def)
  next
    case (Some a)
    have "scan_targets TARGET_CATEGORIES [] = OTHER" by (simp add: TARGET_CATEGORIES_def)
    with Some show ?thesis
      by (simp add: normalize_spec_def normalize_category_Some scan_targets_find)
  qed
  have found: "scan_targets ts c \<in> set ts \<longleftrightarrow> (\<exists>t\<in>set ts. sublist t c)" if "OTHER \<notin> set ts" for ts c
    using that scan_targets_result [of ts c] by auto
  have mem: "normalize_category (Some l) \<in> set TARGET_CATEGORIES \<longleftrightarrow>
      (\<exists>t\<in>set TARGET_CATEGORIES. sublist t l)"
    by (simp only: normalize_category_Some found [OF OTHER_not_target])
  have dist: "distinct TARGET_CATEGORIES" by (simp add: TARGET_CATEGORIES_def)
  have idx: "\<forall>i<length TARGET_CATEGORIES.
      normalize_category (Some l) = TARGET_CATEGORIES ! i \<longleftrightarrow>
        sublist (TARGET_CATEGORIES ! i) l \<and> (\<forall>j<i. \<not> sublist (TARGET_CATEGORIES ! j) l)"
    using scan_targets_index [OF dist OTHER_not_target, of _ l]
    by (simp only: normalize_category_Some) blast
  have none: "(\<forall>t\<in>set TARGET_CATEGORIES. \<not> sublist t l) \<longrightarrow> normalize_category (Some l) = OTHER"
    using mem normalize_category_range [of "Some l"] by blast
  show ?thesis using spec mem idx none by (simp add: normalize_category_def)
qed

theorem normalize_category_correct_witness:
  "2 < length TARGET_CATEGORIES \<and>
   sublist (TARGET_CATEGORIES ! 2) label_A \<and>
   \<not> sublist (TARGET_CATEGORIES ! 0) label_A \<and>
   \<not> sublist (TARGET_CATEGORIES ! 1) label_A \<and>
   normalize_category (Some label_A) = TARGET_CATEGORIES ! 2"
proof -
  have len: "2 < length TARGET_CATEGORIES" by (simp add: TARGET_CATEGORIES_def)
  have hit: "sublist (TARGET_CATEGORIES ! 2) label_A"
    by (simp add: TARGET_CATEGORIES_def label_A_def sublist_Cons_right)
  have m0: "\<not> sublist (TARGET_CATEGORIES ! 0) label_A"
    by (simp add: TARGET_CATEGORIES_def label_A_def sublist_Cons_right)
  have m1: "\<not> sublist (TARGET_CATEGORIES ! 1) label_A"
    by (simp add: TARGET_CATEGORIES_def label_A_def sublist_Cons_right)
  from m0 m1 have miss: "\<forall>j<2. \<not> sublist (TARGET_CATEGORIES ! j) label_A"
    by (simp add: less_2_cases_iff)
  from normalize_category_correct [of None label_A] len hit miss
  have "normalize_category (Some label_A) = TARGET_CATEGORIES ! 2" by blast
  with len hit m0 m1 show ?thesis by blast
qed

section \<open>The gate, the trimmed fields and the metadata of forward\<close>

lemma extract_metadata_keys:
  "extract_metadata m c ''category'' = None"
  "extract_metadata m c ''title'' = None"
  "extract_metadata m c ''short_summary'' = None"
  "extract_metadata m c ''detailed_summary'' = None"
  by (simp_all add: extract_metadata_def Let_def split: option.splits)

lemma extract_metadata_values:
  "extract_metadata None c ''raw_content'' = Some (Some c)"
  "extract_metadata None c ''release_time'' = Some None"
  "extract_metadata None c ''source_institution'' = Some None"
  "extract_metadata None c ''url'' = Some None"
  "extract_metadata (Some (NewsMetadataArg d)) c ''raw_content'' = Some (Some (raw_content d))"
  "extract_metadata (Some (NewsMetadataArg d)) c ''release_time'' = Some (release_time d)"
  "extract_metadata (Some (NewsMetadataArg d)) c ''source_institution'' = Some (source_institution d)"
  "extract_metadata (Some (NewsMetadataArg d)) c ''url'' = Some (url d)"
  "extract_metadata (Some (MappingArg f)) c ''raw_content'' = Some (dict_get_default f ''raw_content'' (Some c))"
  "extract_metadata (Some (MappingArg f)) c ''release_time'' = Some (dict_get f ''release_time'')"
  "extract_metadata (Some (MappingArg f)) c ''source_institution'' = Some (dict_get f ''source_institution'')"
  "extract_metadata (Some (MappingArg f)) c ''url'' = Some (dict_get f ''url'')"
  by (simp_all add: extract_metadata_def asdict_def dict_get_def dict_get_default_def)

lemma forward_rejected:
  "normalize_category (classifier p (length log) c) \<notin> set TARGET_CATEGORIES \<Longrightarrow>
   forward p c m log = (None, log @ [ClassifierCall c])"
  by (simp add: forward_def Let_def)

lemma forward_accepted:
  assumes "normalize_category (classifier p (length log) c) \<in> set TARGET_CATEGORIES"
  shows "\<exists>r. forward p c m log =
           (Some r, log @ [ClassifierCall c,
                           ExtractorCall c (normalize_category (classifier p (length log) c))]) \<and>
         r ''category'' = Some (Some (normalize_category (classifier p (length log) c))) \<and>
         r ''title'' = Some (Some (strip (extraction.title
            (extractor p (Suc (length log)) c (normalize_category (classifier p (length log) c)))))) \<and>
         r ''short_summary'' = Some (Some (strip (extraction.short_summary
            (extractor p (Suc (length log)) c (normalize_category (classifier p (length log) c)))))) \<and>
         r ''detailed_summary'' = Some (Some (strip (extraction.detailed_summary
            (extractor p (Suc (length log)) c (normalize_category (classifier p (length log) c)))))) \<and>
         (\<forall>k\<in>{''raw_content'', ''release_time'', ''source_institution'', ''url''}.
            r k = extract_metadata m c k)"
  using assms
  by (simp add: forward_def Let_def map_add_def extract_metadata_keys extract_metadata_def split: option.splits)

lemma forward_accepted_normalized:
  assumes "normalized p c log \<in> set TARGET_CATEGORIES"
  shows "\<exists>r. forward p c m log =
           (Some r, log @ [ClassifierCall c, ExtractorCall c (normalized p c log)]) \<and>
         r ''category'' = Some (Some (normalized p c log)) \<and>
         r ''title'' = Some (Some (strip (extraction.title (extracted p c log)))) \<and>
         r ''short_summary'' = Some (Some (strip (extraction.short_summary (extracted p c log)))) \<and>
         r ''detailed_summary'' = Some (Some (strip (extraction.detailed_summary (extracted p c log)))) \<and>
         r ''raw_content'' = extract_metadata m c ''raw_content'' \<and>
         r ''release_time'' = extract_metadata m c ''release_time'' \<and>
         r ''source_institution'' = extract_metadata m c ''source_institution'' \<and>
         r ''url'' = extract_metadata m c ''url''"
  using forward_accepted [of p log c m] assms
  unfolding normalized_def extracted_def by auto

lemma scenario_accepts:
  "normalized (constant_pipeline (Some label_A) e) c log = TARGET_CATEGORIES ! 2"
  "normalized (constant_pipeline (Some label_A) e) c log \<in> set TARGET_CATEGORIES"
  "extracted (constant_pipeline (Some label_A) e) c log = e"
  by (simp_all add: normalized_def extracted_def constant_pipeline_def label_A_def normalize_category_def
      strip_def is_space_def TARGET_CATEGORIES_def sublist_Cons_right)

lemma scenario_rejects:
  "normalized (constant_pipeline (Some label_B) e) c log = OTHER"
  "normalized (constant_pipeline (Some label_B) e) c log \<notin> set TARGET_CATEGORIES"
  by (simp_all add: normalized_def constant_pipeline_def label_B_def normalize_category_def
      strip_def is_space_def TARGET_CATEGORIES_def OTHER_def sublist_Cons_right)

text \<open>
  Claim C1.  The gate of \<open>forward\<close>: a record is returned exactly when the normalized
  category is one of the three target categories.  When it is not (it is then the
  other-label, the only value outside the targets that the normalization can give)
  \<open>forward\<close> returns \<open>None\<close> and the only model call it has made is the classifier's, so
  the extractor is not invoked.  A returned record carries the normalized category, which
  is never the other-label, and the extractor was then invoked once, after the classifier.
\<close>

theorem forward_gate:
  "(fst (forward p c m log) \<noteq> None \<longleftrightarrow> normalized p c log \<in> set TARGET_CATEGORIES) \<and>
   (normalized p c log \<notin> set TARGET_CATEGORIES \<longrightarrow>
      forward p c m log = (None, log @ [ClassifierCall c])) \<and>
   (normalized p c log = OTHER \<longrightarrow> forward p c m log = (None, log @ [ClassifierCall c])) \<and>
   (normalized p c log \<in> set TARGET_CATEGORIES \<or> normalized p c log = OTHER) \<and>
   (\<forall>r. fst (forward p c m log) = Some r \<longrightarrow>
      dict_get r ''category'' = Some (normalized p c log) \<and>
      dict_get r ''category'' \<noteq> Some OTHER \<and>
      snd (forward p c m log) =
        log @ [ClassifierCall c, ExtractorCall c (normalized p c log)])"
proof (cases "normalized p c log \<in> set TARGET_CATEGORIES")
  case True
  then have "normalized p c log \<noteq> OTHER"
    using OTHER_not_target by auto
  with True forward_accepted_normalized [OF True, of m] show ?thesis
    by (auto simp: dict_get_def)
next
  case False
  then have "forward p c m log = (None, log @ [ClassifierCall c])"
    unfolding normalized_def by (rule forward_rejected)
  with False normalize_category_range [of "classifier p (length log) c"] show ?thesis
    by (simp add: normalized_def)
qed

theorem forward_gate_witness:
  "normalized (constant_pipeline (Some label_B)
       \<lparr>extraction.title = [84], short_summary = [83], detailed_summary = points_C\<rparr>) article_A [] = OTHER \<and>
   forward (constant_pipeline (Some label_B)
       \<lparr>extraction.title = [84], short_summary = [83], detailed_summary = points_C\<rparr>) article_A None [] =
     (None, [ClassifierCall article_A]) \<and>
   normalized (constant_pipeline (Some label_A)
       \<lparr>extraction.title = [84], short_summary = [83], detailed_summary = points_C\<rparr>) article_A []
     \<in> set TARGET_CATEGORIES \<and>
   fst (forward (constant_pipeline (Some label_A)
       \<lparr>extraction.title = [84], short_summary = [83], detailed_summary = points_C\<rparr>) article_A None [])
     \<noteq> None \<and>
   snd (forward (constant_pipeline (Some label_A)
       \<lparr>extraction.title = [84], short_summary = [83], detailed_summary = points_C\<rparr>) article_A None []) =
     [ClassifierCall article_A, ExtractorCall article_A (TARGET_CATEGORIES ! 2)]"
proof -
  let ?e = "\<lparr>extraction.title = [84], short_summary = [83], detailed_summary = points_C\<rparr>"
  let ?pB = "constant_pipeline (Some label_B) ?e"
  let ?pA = "constant_pipeline (Some label_A) ?e"
  have b: "normalized ?pB article_A [] = OTHER" by (rule scenario_rejects)
  have a: "normalized ?pA article_A [] \<in> set TARGET_CATEGORIES" by (rule scenario_accepts)
  from forward_gate [of ?pB article_A None "[]"] b
  have 1: "forward ?pB article_A None [] = (None, [ClassifierCall article_A])" by simp
  from forward_gate [of ?pA article_A None "[]"] a
  have 2: "fst (forward ?pA article_A None []) \<noteq> None" by blast
  then obtain r where "fst (forward ?pA article_A None []) = Some r" by blast
  with forward_gate [of ?pA article_A None "[]"]
  have 3: "snd (forward ?pA article_A None []) =
     [ClassifierCall article_A, ExtractorCall article_A (TARGET_CATEGORIES ! 2)]"
    by (simp add: scenario_accepts)
  from b 1 a 2 3 show ?thesis by blast
qed

lemma last_dropWhile: "dropWhile P xs \<noteq> [] \<Longrightarrow> last (dropWhile P xs) = last xs"
  by (induction xs) (auto split: if_splits)

lemma trimmed_strip: "trimmed (strip s)"
proof (cases "strip s = []")
  case True
  then show ?thesis by (simp add: trimmed_def)
next
  case False
  let ?u = "dropWhile is_space s"
  let ?v = "dropWhile is_space (rev ?u)"
  from False have v: "?v \<noteq> []" by (simp add: strip_def)
  have u: "?u \<noteq> []"
  proof
    assume "?u = []"
    then have "?v = dropWhile is_space (rev [])" by (simp only:)
    then have "?v = []" by (simp only: rev.simps dropWhile.simps)
    with v show False by contradiction
  qed
  have "hd (strip s) = last ?v" using v by (simp add: strip_def hd_rev)
  also have "\<dots> = last (rev ?u)" using v by (rule last_dropWhile)
  also have "\<dots> = hd ?u" using u by (simp add: last_rev)
  finally have "\<not> is_space (hd (strip s))" using u by (simp add: hd_dropWhile)
  moreover have "last (strip s) = hd ?v" using v by (simp add: strip_def last_rev)
  then have "\<not> is_space (last (strip s))" using v by (simp add: hd_dropWhile)
  ultimately show ?thesis by (simp add: trimmed_def)
qed

lemma dropWhile_id: "xs = [] \<or> \<not> P (hd xs) \<Longrightarrow> dropWhile P xs = xs"
  by (cases xs) auto

lemma strip_trimmed: "trimmed s \<Longrightarrow> strip s = s"
proof -
  assume t: "trimmed s"
  then have 1: "dropWhile is_space s = s" by (intro dropWhile_id) (auto simp: trimmed_def)
  from t have "rev s = [] \<or> \<not> is_space (hd (rev s))" by (auto simp: trimmed_def hd_rev)
  then have 2: "dropWhile is_space (rev s) = rev s" by (rule dropWhile_id)
  show ?thesis by (simp add: strip_def 1 2)
qed

lemma strip_idem: "strip (strip s) = strip s"
  by (rule strip_trimmed [OF trimmed_strip])

text \<open>
  Claim C8.  For every accepted article, \<open>forward\<close> without metadata returns a record whose
  \<open>raw_content\<close> is the input content and whose \<open>release_time\<close>, \<open>source_institution\<close>
  and \<open>url\<close> are \<open>None\<close>.  With a \<open>NewsMetadata\<close> object its four fields are carried into
  the record unchanged; with a mapping its entries are carried over, and the input content
  stands in for \<open>raw_content\<close> only when the mapping has no such key.
\<close>

theorem forward_metadata:
  assumes "normalized p c log \<in> set TARGET_CATEGORIES"
  shows "\<exists>r. fst (forward p c m log) = Some r \<and>
     (m = None \<longrightarrow>
        r ''raw_content'' = Some (Some c) \<and> r ''release_time'' = Some None \<and>
        r ''source_institution'' = Some None \<and> r ''url'' = Some None) \<and>
     (\<forall>d. m = Some (NewsMetadataArg d) \<longrightarrow>
        r ''raw_content'' = Some (Some (raw_content d)) \<and>
        r ''release_time'' = Some (release_time d) \<and>
        r ''source_institution'' = Some (source_institution d) \<and>
        r ''url'' = Some (url d)) \<and>
     (\<forall>d. m = Some (MappingArg d) \<longrightarrow>
        r ''raw_content'' = Some (dict_get_default d ''raw_content'' (Some c)) \<and>
        r ''release_time'' = Some (dict_get d ''release_time'') \<and>
        r ''source_institution'' = Some (dict_get d ''source_institution'') \<and>
        r ''url'' = Some (dict_get d ''url''))"
proof -
  from forward_accepted_normalized [OF assms, of m] obtain r where
    r: "forward p c m log = (Some r, log @ [ClassifierCall c, ExtractorCall c (normalized p c log)])"
       "r ''raw_content'' = extract_metadata m c ''raw_content''"
       "r ''release_time'' = extract_metadata m c ''release_time''"
       "r ''source_institution'' = extract_metadata m c ''source_institution''"
       "r ''url'' = extract_metadata m c ''url''"
    by blast
  have "fst (forward p c m log) = Some r" using r(1) by simp
  moreover have "m = None \<longrightarrow>
        r ''raw_content'' = Some (Some c) \<and> r ''release_time'' = Some None \<and>
        r ''source_institution'' = Some None \<and> r ''url'' = Some None"
    using r(2-5) by (simp add: extract_metadata_values)
  moreover have "\<forall>d. m = Some (NewsMetadataArg d) \<longrightarrow>
        r ''raw_content'' = Some (Some (raw_content d)) \<and>
        r ''release_time'' = Some (release_time d) \<and>
        r ''source_institution'' = Some (source_institution d) \<and>
        r ''url'' = Some (url d)"
    using r(2-5) by (simp add: extract_metadata_values)
  moreover have "\<forall>d. m = Some (MappingArg d) \<longrightarrow>
        r ''raw_content'' = Some (dict_get_default d ''raw_content'' (Some c)) \<and>
        r ''release_time'' = Some (dict_get d ''release_time'') \<and>
        r ''source_institution'' = Some (dict_get d ''source_institution'') \<and>
        r ''url'' = Some (dict_get d ''url'')"
    using r(2-5) by (simp add: extract_metadata_values)
  ultimately show ?thesis by blast
qed

theorem forward_metadata_witness:
  "normalized (constant_pipeline (Some label_A) \<lparr>extraction.title = [84], short_summary = [83], detailed_summary = points_C\<rparr>)
      article_A [] \<in> set TARGET_CATEGORIES \<and>
   safe_get (metric_input (fst (forward (constant_pipeline (Some label_A) \<lparr>extraction.title = [84], short_summary = [83], detailed_summary = points_C\<rparr>)
      article_A None []))) ''raw_content'' = Some article_A \<and>
   safe_get (metric_input (fst (forward (constant_pipeline (Some label_A) \<lparr>extraction.title = [84], short_summary = [83], detailed_summary = points_C\<rparr>)
      article_A None []))) ''source_institution'' = None \<and>
   safe_get (metric_input (fst (forward (constant_pipeline (Some label_A) \<lparr>extraction.title = [84], short_summary = [83], detailed_summary = points_C\<rparr>)
      article_A
      (Some (NewsMetadataArg \<lparr>raw_content = article_A, release_time = None,
                              source_institution = Some institution_A, url = None\<rparr>)) [])))
      ''source_institution'' = Some institution_A"
proof -
  let ?p = "constant_pipeline (Some label_A) \<lparr>extraction.title = [84], short_summary = [83], detailed_summary = points_C\<rparr>"
  let ?m = "Some (NewsMetadataArg \<lparr>raw_content = article_A, release_time = None,
                              source_institution = Some institution_A, url = None\<rparr>)"
  have acc: "normalized ?p article_A [] \<in> set TARGET_CATEGORIES" by (rule scenario_accepts)
  from forward_metadata [OF acc, of None] obtain r where
    "fst (forward ?p article_A None []) = Some r"
    "r ''raw_content'' = Some (Some article_A)" "r ''source_institution'' = Some None"
    by blast
  then have 1: "safe_get (metric_input (fst (forward ?p article_A None []))) ''raw_content'' = Some article_A"
    "safe_get (metric_input (fst (forward ?p article_A None []))) ''source_institution'' = None"
    by (simp_all add: metric_input_def safe_get_def dict_get_def)
  from forward_metadata [OF acc, of ?m] obtain r' where
    "fst (forward ?p article_A ?m []) = Some r'"
    "r' ''source_institution'' = Some (Some institution_A)"
    by auto
  then have 2: "safe_get (metric_input (fst (forward ?p article_A ?m []))) ''source_institution'' = Some institution_A"
    by (simp add: metric_input_def safe_get_def dict_get_def)
  from acc 1 2 show ?thesis by blast
qed

section \<open>The batch driver\<close>

lemma process_record_blank:
  "strip (row_content rec) = [] \<Longrightarrow> process_record p rec st = st"
  by (simp add: process_record_def)

lemma process_record_rejected:
  assumes "strip (row_content rec) \<noteq> []"
    and "normalized p (row_content rec) (lm_log st) \<notin> set TARGET_CATEGORIES"
  shows "process_record p rec st = st\<lparr>lm_log := lm_log st @ [ClassifierCall (row_content rec)]\<rparr>"
proof -
  have "forward p (row_content rec)
          (Some (NewsMetadataArg \<lparr>raw_content = row_content rec, release_time = rec ''release_time'',
             source_institution = rec ''source_institution'', url = rec ''url''\<rparr>)) (lm_log st) =
        (None, lm_log st @ [ClassifierCall (row_content rec)])"
    using assms(2) unfolding normalized_def by (rule forward_rejected)
  with assms(1) show ?thesis by (simp add: process_record_def)
qed

lemma process_record_accepted:
  assumes "strip (row_content rec) \<noteq> []"
    and "normalized p (row_content rec) (lm_log st) \<in> set TARGET_CATEGORIES"
  shows "\<exists>w. process_record p rec st =
           st\<lparr>lm_log := lm_log st @ [ClassifierCall (row_content rec),
                    ExtractorCall (row_content rec) (normalized p (row_content rec) (lm_log st))],
              sink := sink st @ [w], written := written st + 1\<rparr> \<and>
         w ''category'' = Some (Some (normalized p (row_content rec) (lm_log st))) \<and>
         w ''title'' = Some (Some (strip (extraction.title (extracted p (row_content rec) (lm_log st))))) \<and>
         w ''short_summary'' =
           Some (Some (strip (extraction.short_summary (extracted p (row_content rec) (lm_log st))))) \<and>
         w ''detailed_summary'' =
           Some (Some
             (if strip (extraction.short_summary (extracted p (row_content rec) (lm_log st))) \<noteq> [] \<and>
                 strip (extraction.detailed_summary (extracted p (row_content rec) (lm_log st))) \<noteq> []
              then strip (extraction.short_summary (extracted p (row_content rec) (lm_log st))) @ [10] @
                   strip (extraction.detailed_summary (extracted p (row_content rec) (lm_log st)))
              else strip (extraction.detailed_summary (extracted p (row_content rec) (lm_log st))))) \<and>
         w ''raw_content'' = Some (Some (row_content rec)) \<and>
         w ''release_time'' = Some (rec ''release_time'') \<and>
         w ''source_institution'' = Some (rec ''source_institution'') \<and>
         w ''url'' = Some (rec ''url'')"
proof -
  let ?c = "row_content rec"
  let ?m = "Some (NewsMetadataArg \<lparr>raw_content = row_content rec, release_time = rec ''release_time'',
             source_institution = rec ''source_institution'', url = rec ''url''\<rparr>)"
  from forward_accepted_normalized [OF assms(2), of ?m] obtain r where
    fw: "forward p ?c ?m (lm_log st) =
           (Some r, lm_log st @ [ClassifierCall ?c, ExtractorCall ?c (normalized p ?c (lm_log st))])"
    and r: "r ''category'' = Some (Some (normalized p ?c (lm_log st)))"
       "r ''title'' = Some (Some (strip (extraction.title (extracted p ?c (lm_log st)))))"
       "r ''short_summary'' = Some (Some (strip (extraction.short_summary (extracted p ?c (lm_log st)))))"
       "r ''detailed_summary'' = Some (Some (strip (extraction.detailed_summary (extracted p ?c (lm_log st)))))"
       "r ''raw_content'' = extract_metadata ?m ?c ''raw_content''"
       "r ''release_time'' = extract_metadata ?m ?c ''release_time''"
       "r ''source_institution'' = extract_metadata ?m ?c ''source_institution''"
       "r ''url'' = extract_metadata ?m ?c ''url''"
    by blast
  let ?S = "strip (extraction.short_summary (extracted p ?c (lm_log st)))"
  let ?D = "strip (extraction.detailed_summary (extracted p ?c (lm_log st)))"
  let ?w = "if ?S \<noteq> [] \<and> ?D \<noteq> [] then r(''detailed_summary'' \<mapsto> Some (?S @ [10] @ ?D)) else r"
  have step: "process_record p rec st =
      st\<lparr>lm_log := lm_log st @ [ClassifierCall ?c, ExtractorCall ?c (normalized p ?c (lm_log st))],
         sink := sink st @ [?w], written := written st + 1\<rparr>"
    using assms(1) fw r(3,4)
    by (simp add: process_record_def dict_get_def truthy_def fmt_def)
  have fields:
    "?w ''category'' = Some (Some (normalized p ?c (lm_log st)))"
    "?w ''title'' = Some (Some (strip (extraction.title (extracted p ?c (lm_log st)))))"
    "?w ''short_summary'' = Some (Some ?S)"
    "?w ''detailed_summary'' = Some (Some (if ?S \<noteq> [] \<and> ?D \<noteq> [] then ?S @ [10] @ ?D else ?D))"
    "?w ''raw_content'' = Some (Some ?c)"
    "?w ''release_time'' = Some (rec ''release_time'')"
    "?w ''source_institution'' = Some (rec ''source_institution'')"
    "?w ''url'' = Some (rec ''url'')"
    using r by (simp_all add: extract_metadata_values)
  show ?thesis
    by (rule exI [of _ ?w]) (simp only: step fields simp_thms)
qed

lemma process_records_append:
  "process_records p (xs @ ys) st = process_records p ys (process_records p xs st)"
  by (induction xs arbitrary: st) simp_all

lemma sink_process_record: "\<exists>ws. sink (process_record p rec st) = sink st @ ws"
proof (cases "strip (row_content rec) = []")
  case True
  then show ?thesis by (simp add: process_record_blank)
next
  case False
  show ?thesis
  proof (cases "normalized p (row_content rec) (lm_log st) \<in> set TARGET_CATEGORIES")
    case True
    from process_record_accepted [OF False True] show ?thesis by auto
  next
    case no: False
    from process_record_rejected [OF False no] show ?thesis by simp
  qed
qed

lemma sink_process_records: "\<exists>ws. sink (process_records p recs st) = sink st @ ws"
proof (induction recs arbitrary: st)
  case Nil
  then show ?case by simp
next
  case (Cons rec recs)
  from sink_process_record [of p rec st] obtain ws1 where
    1: "sink (process_record p rec st) = sink st @ ws1" by blast
  from Cons [of "process_record p rec st"] obtain ws2 where
    "sink (process_records p recs (process_record p rec st)) = sink (process_record p rec st) @ ws2"
    by blast
  with 1 show ?case by simp
qed

lemma row_A_content: "row_content row_A = article_A" "strip article_A \<noteq> []"
  by (simp_all add: row_content_def row_A_def article_A_def strip_def is_space_def)

lemma trimmed_join:
  "trimmed a \<Longrightarrow> trimmed b \<Longrightarrow> a \<noteq> [] \<Longrightarrow> b \<noteq> [] \<Longrightarrow> trimmed (a @ [x] @ b)"
  by (simp add: trimmed_def)

text \<open>
  Claim C6.  For every accepted article the record that \<open>forward\<close> returns holds a title,
  a short summary and a detailed summary that have no leading and no trailing whitespace,
  whatever the extractor answered: each is a fixed point of \<open>strip\<close>, and if it is not
  empty its first and its last character are not whitespace.  The same holds for the line
  that \<open>process_records\<close> writes for the article, whose detailed summary may be the
  short summary, a line feed and the detailed summary joined.
\<close>

theorem record_fields_trimmed:
  "(normalized p c log \<in> set TARGET_CATEGORIES \<longrightarrow>
      (\<exists>r. fst (forward p c m log) = Some r \<and>
         (\<forall>k\<in>{''title'', ''short_summary'', ''detailed_summary''}.
            \<exists>s. r k = Some (Some s) \<and> trimmed s \<and> strip s = s))) \<and>
   (strip (row_content rec) \<noteq> [] \<and>
    normalized p (row_content rec) (lm_log st) \<in> set TARGET_CATEGORIES \<longrightarrow>
      (\<exists>w. sink (process_record p rec st) = sink st @ [w] \<and>
         (\<forall>k\<in>{''title'', ''short_summary'', ''detailed_summary''}.
            \<exists>s. w k = Some (Some s) \<and> trimmed s \<and> strip s = s)))"
proof (intro conjI impI)
  assume acc: "normalized p c log \<in> set TARGET_CATEGORIES"
  from forward_accepted_normalized [OF acc, of m] obtain r where
    r: "forward p c m log = (Some r, log @ [ClassifierCall c, ExtractorCall c (normalized p c log)])"
       "r ''title'' = Some (Some (strip (extraction.title (extracted p c log))))"
       "r ''short_summary'' = Some (Some (strip (extraction.short_summary (extracted p c log))))"
       "r ''detailed_summary'' = Some (Some (strip (extraction.detailed_summary (extracted p c log))))"
    by blast
  have "\<forall>k\<in>{''title'', ''short_summary'', ''detailed_summary''}.
          \<exists>s. r k = Some (Some s) \<and> trimmed s \<and> strip s = s"
    using r(2-4) by (simp add: trimmed_strip strip_idem)
  with r(1) show "\<exists>r. fst (forward p c m log) = Some r \<and>
         (\<forall>k\<in>{''title'', ''short_summary'', ''detailed_summary''}.
            \<exists>s. r k = Some (Some s) \<and> trimmed s \<and> strip s = s)"
    by simp
next
  assume "strip (row_content rec) \<noteq> [] \<and>
    normalized p (row_content rec) (lm_log st) \<in> set TARGET_CATEGORIES"
  then have nb: "strip (row_content rec) \<noteq> []"
    and acc: "normalized p (row_content rec) (lm_log st) \<in> set TARGET_CATEGORIES"
    by blast+
  let ?S = "strip (extraction.short_summary (extracted p (row_content rec) (lm_log st)))"
  let ?D = "strip (extraction.detailed_summary (extracted p (row_content rec) (lm_log st)))"
  from process_record_accepted [OF nb acc] obtain w where
    step: "sink (process_record p rec st) = sink st @ [w]"
    and w: "w ''title'' = Some (Some (strip (extraction.title (extracted p (row_content rec) (lm_log st)))))"
       "w ''short_summary'' = Some (Some ?S)"
       "w ''detailed_summary'' = Some (Some (if ?S \<noteq> [] \<and> ?D \<noteq> [] then ?S @ [10] @ ?D else ?D))"
    by auto
  have "trimmed (if ?S \<noteq> [] \<and> ?D \<noteq> [] then ?S @ [10] @ ?D else ?D)"
  proof (cases "?S \<noteq> [] \<and> ?D \<noteq> []")
    case True
    then have "trimmed (?S @ [10] @ ?D)"
      by (intro trimmed_join trimmed_strip) simp_all
    with True show ?thesis by simp
  next
    case False
    then show ?thesis using trimmed_strip by auto
  qed
  then have "\<forall>k\<in>{''title'', ''short_summary'', ''detailed_summary''}.
          \<exists>s. w k = Some (Some s) \<and> trimmed s \<and> strip s = s"
    using w by (simp add: trimmed_strip strip_idem strip_trimmed)
  with step show "\<exists>w. sink (process_record p rec st) = sink st @ [w] \<and>
         (\<forall>k\<in>{''title'', ''short_summary'', ''detailed_summary''}.
            \<exists>s. w k = Some (Some s) \<and> trimmed s \<and> strip s = s)"
    by blast
qed

theorem record_fields_trimmed_witness:
  "normalized (constant_pipeline (Some label_A)
       \<lparr>extraction.title = [32, 84, 10], short_summary = [12288, 83, 32], detailed_summary = 9 # points_C @ [13, 10]\<rparr>)
       article_A [] \<in> set TARGET_CATEGORIES \<and>
   safe_get (metric_input (fst (forward (constant_pipeline (Some label_A)
       \<lparr>extraction.title = [32, 84, 10], short_summary = [12288, 83, 32], detailed_summary = 9 # points_C @ [13, 10]\<rparr>)
       article_A None []))) ''title'' = Some [84] \<and>
   safe_get (metric_input (fst (forward (constant_pipeline (Some label_A)
       \<lparr>extraction.title = [32, 84, 10], short_summary = [12288, 83, 32], detailed_summary = 9 # points_C @ [13, 10]\<rparr>)
       article_A None []))) ''short_summary'' = Some [83] \<and>
   safe_get (metric_input (fst (forward (constant_pipeline (Some label_A)
       \<lparr>extraction.title = [32, 84, 10], short_summary = [12288, 83, 32], detailed_summary = 9 # points_C @ [13, 10]\<rparr>)
       article_A None []))) ''detailed_summary'' = Some points_C \<and>
   trimmed [84] \<and> trimmed [83] \<and> trimmed points_C \<and>
   strip (row_content row_A) \<noteq> [] \<and>
   column ''detailed_summary'' (sink (process_record (constant_pipeline (Some label_A)
       \<lparr>extraction.title = [32, 84, 10], short_summary = [12288, 83, 32], detailed_summary = 9 # points_C @ [13, 10]\<rparr>)
       row_A initial_state)) = [Some (83 # 10 # points_C)] \<and>
   trimmed (83 # 10 # points_C)"
proof -
  let ?p = "constant_pipeline (Some label_A)
       \<lparr>extraction.title = [32, 84, 10], short_summary = [12288, 83, 32], detailed_summary = 9 # points_C @ [13, 10]\<rparr>"
  have acc: "normalized ?p article_A [] \<in> set TARGET_CATEGORIES"
    by (rule scenario_accepts)
  from record_fields_trimmed [of ?p article_A "[]" None] acc obtain r where
    r: "fst (forward ?p article_A None []) = Some r"
       "\<forall>k\<in>{''title'', ''short_summary'', ''detailed_summary''}.
              \<exists>s. r k = Some (Some s) \<and> trimmed s \<and> strip s = s"
    by blast
  from forward_accepted_normalized [OF acc, of None] r(1) have
    f: "r ''title'' = Some (Some (strip [32, 84, 10]))"
       "r ''short_summary'' = Some (Some (strip [12288, 83, 32]))"
       "r ''detailed_summary'' = Some (Some (strip (9 # points_C @ [13, 10])))"
    by (auto simp: extracted_def constant_pipeline_def)
  have s: "strip [32, 84, 10] = [84]" "strip [12288, 83, 32] = [83]"
    "strip (9 # points_C @ [13, 10]) = points_C"
    by (simp_all add: strip_def is_space_def points_C_def)
  from r(2) f s have t: "trimmed [84]" "trimmed [83]" "trimmed points_C" by auto
  have g: "safe_get (metric_input (fst (forward ?p article_A None []))) ''title'' = Some [84]"
    "safe_get (metric_input (fst (forward ?p article_A None []))) ''short_summary'' = Some [83]"
    "safe_get (metric_input (fst (forward ?p article_A None []))) ''detailed_summary'' = Some points_C"
    using r(1) f s by (simp_all add: metric_input_def safe_get_def dict_get_def)
  have nb: "strip (row_content row_A) \<noteq> []" by (simp add: row_A_content)
  have acc': "normalized ?p (row_content row_A) (lm_log initial_state) \<in> set TARGET_CATEGORIES"
    by (rule scenario_accepts)
  from record_fields_trimmed [of ?p article_A "[]" None row_A initial_state] nb acc' obtain w where
    w: "sink (process_record ?p row_A initial_state) = sink initial_state @ [w]"
       "\<forall>k\<in>{''title'', ''short_summary'', ''detailed_summary''}.
              \<exists>s. w k = Some (Some s) \<and> trimmed s \<and> strip s = s"
    by blast
  have pne: "points_C \<noteq> []" by (simp add: points_C_def)
  from process_record_accepted [OF nb acc'] obtain w' where
    "sink (process_record ?p row_A initial_state) = sink initial_state @ [w']"
    "w' ''detailed_summary'' = Some (Some (83 # 10 # points_C))"
    by (auto simp: scenario_accepts s pne)
  with w(1) have d: "w ''detailed_summary'' = Some (Some (83 # 10 # points_C))"
    by simp
  with w have c: "column ''detailed_summary'' (sink (process_record ?p row_A initial_state)) = [Some (83 # 10 # points_C)]"
    "trimmed (83 # 10 # points_C)"
    by (auto simp: column_def initial_state_def dict_get_def)
  from acc g t nb c show ?thesis by blast
qed

text \<open>
  Claim C5.  Let an accepted article with non-blank content stand anywhere in a batch, and
  let \<open>S\<close> and \<open>D\<close> be the short and the detailed summary of the record that the pipeline
  returns for it (the extractor's fields as \<open>forward\<close> trims them).  Then
  \<open>process_records\<close> writes a line for the article, right after the lines of the rows
  before it, and the \<open>detailed_summary\<close> of that line is \<open>S\<close>, a line feed and \<open>D\<close> when
  both are non-empty, and \<open>D\<close> unchanged when either is empty (so an empty \<open>S\<close> puts no
  line feed in front of \<open>D\<close>).
\<close>

theorem summary_composition:
  assumes "strip (row_content rec) \<noteq> []"
    and "normalized p (row_content rec) (lm_log (process_records p pre st)) \<in> set TARGET_CATEGORIES"
    and "S = strip (extraction.short_summary
                 (extracted p (row_content rec) (lm_log (process_records p pre st))))"
    and "D = strip (extraction.detailed_summary
                 (extracted p (row_content rec) (lm_log (process_records p pre st))))"
  shows "\<exists>w ws. sink (process_records p (pre @ rec # post) st) =
                  sink (process_records p pre st) @ w # ws \<and>
           dict_get w ''short_summary'' = Some S \<and>
           dict_get w ''detailed_summary'' = Some (if S \<noteq> [] \<and> D \<noteq> [] then S @ [10] @ D else D) \<and>
           (S \<noteq> [] \<and> D \<noteq> [] \<longrightarrow> dict_get w ''detailed_summary'' = Some (S @ [10] @ D)) \<and>
           (S = [] \<or> D = [] \<longrightarrow> dict_get w ''detailed_summary'' = Some D)"
proof -
  let ?st = "process_records p pre st"
  from process_record_accepted [OF assms(1,2)] obtain w where
    step: "process_record p rec ?st =
             ?st\<lparr>lm_log := lm_log ?st @ [ClassifierCall (row_content rec),
                      ExtractorCall (row_content rec) (normalized p (row_content rec) (lm_log ?st))],
                 sink := sink ?st @ [w], written := written ?st + 1\<rparr>"
    and w: "w ''short_summary'' = Some (Some S)"
           "w ''detailed_summary'' = Some (Some (if S \<noteq> [] \<and> D \<noteq> [] then S @ [10] @ D else D))"
    unfolding assms(3,4) by blast
  have "process_records p (pre @ rec # post) st = process_records p post (process_record p rec ?st)"
    by (simp add: process_records_append)
  with sink_process_records [of p post "process_record p rec ?st"] obtain ws where
    "sink (process_records p (pre @ rec # post) st) = sink (process_record p rec ?st) @ ws"
    by auto
  with step have "sink (process_records p (pre @ rec # post) st) = sink ?st @ w # ws"
    by simp
  moreover from w have "dict_get w ''short_summary'' = Some S"
    "dict_get w ''detailed_summary'' = Some (if S \<noteq> [] \<and> D \<noteq> [] then S @ [10] @ D else D)"
    by (simp_all add: dict_get_def)
  ultimately show ?thesis by auto
qed

theorem summary_composition_witness:
  "strip (row_content row_A) \<noteq> [] \<and>
   normalized (constant_pipeline (Some label_A)
       \<lparr>extraction.title = [84], short_summary = [], detailed_summary = points_C\<rparr>)
     (row_content row_A) (lm_log (process_records (constant_pipeline (Some label_A)
       \<lparr>extraction.title = [84], short_summary = [], detailed_summary = points_C\<rparr>) [] initial_state))
     \<in> set TARGET_CATEGORIES \<and>
   hd (column ''detailed_summary'' (sink (process_records (constant_pipeline (Some label_A)
       \<lparr>extraction.title = [84], short_summary = [], detailed_summary = points_C\<rparr>)
       ([] @ row_A # []) initial_state))) = Some points_C \<and>
   hd (column ''detailed_summary'' (sink (process_records (constant_pipeline (Some label_A)
       \<lparr>extraction.title = [84], short_summary = [32, 83], detailed_summary = points_C\<rparr>)
       ([] @ row_A # []) initial_state))) = Some (83 # 10 # points_C)"
proof -
  let ?e = "\<lparr>extraction.title = [84], short_summary = [], detailed_summary = points_C\<rparr>"
  let ?e' = "\<lparr>extraction.title = [84], short_summary = [32, 83], detailed_summary = points_C\<rparr>"
  let ?p = "constant_pipeline (Some label_A) ?e"
  let ?p' = "constant_pipeline (Some label_A) ?e'"
  have h1: "strip (row_content row_A) \<noteq> []" by (simp add: row_A_content)
  have h2: "normalized ?p (row_content row_A) (lm_log (process_records ?p [] initial_state))
              \<in> set TARGET_CATEGORIES" by (rule scenario_accepts)
  have h2': "normalized ?p' (row_content row_A) (lm_log (process_records ?p' [] initial_state))
              \<in> set TARGET_CATEGORIES" by (rule scenario_accepts)
  have sC: "strip points_C = points_C" "strip [] = []" "strip [32, 83] = [83]"
    by (simp_all add: strip_def is_space_def points_C_def)
  have pne: "points_C \<noteq> []" by (simp add: points_C_def)
  from summary_composition [OF h1 h2 refl refl, of "[]"] obtain w ws where
    "sink (process_records ?p ([] @ row_A # []) initial_state) = sink (process_records ?p [] initial_state) @ w # ws"
    "dict_get w ''detailed_summary'' = Some points_C"
    by (auto simp: scenario_accepts sC)
  then have 1: "hd (column ''detailed_summary'' (sink (process_records ?p ([] @ row_A # []) initial_state))) = Some points_C"
    by (simp add: column_def initial_state_def)
  from summary_composition [OF h1 h2' refl refl, of "[]"] obtain w' ws' where
    "sink (process_records ?p' ([] @ row_A # []) initial_state) = sink (process_records ?p' [] initial_state) @ w' # ws'"
    "dict_get w' ''detailed_summary'' = Some (83 # 10 # points_C)"
    by (auto simp: scenario_accepts sC pne)
  then have 2: "hd (column ''detailed_summary'' (sink (process_records ?p' ([] @ row_A # []) initial_state))) = Some (83 # 10 # points_C)"
    by (simp add: column_def initial_state_def)
  from h1 h2 1 2 show ?thesis by blast
qed

lemma process_record_calls:
  assumes "\<forall>c. ClassifierCall c \<in> set (lm_log st) \<longrightarrow> strip c \<noteq> []"
    and "\<forall>c g. ExtractorCall c g \<in> set (lm_log st) \<longrightarrow> strip c \<noteq> []"
  shows "(\<forall>c. ClassifierCall c \<in> set (lm_log (process_record p rec st)) \<longrightarrow> strip c \<noteq> []) \<and>
         (\<forall>c g. ExtractorCall c g \<in> set (lm_log (process_record p rec st)) \<longrightarrow> strip c \<noteq> [])"
proof (cases "strip (row_content rec) = []")
  case True
  with assms show ?thesis by (simp add: process_record_blank)
next
  case False
  show ?thesis
  proof (cases "normalized p (row_content rec) (lm_log st) \<in> set TARGET_CATEGORIES")
    case True
    from process_record_accepted [OF False True] obtain w where
      "process_record p rec st =
           st\<lparr>lm_log := lm_log st @ [ClassifierCall (row_content rec),
                    ExtractorCall (row_content rec) (normalized p (row_content rec) (lm_log st))],
              sink := sink st @ [w], written := written st + 1\<rparr>" by blast
    with assms False show ?thesis by auto
  next
    case no: False
    from process_record_rejected [OF False no] assms False show ?thesis by auto
  qed
qed

lemma process_records_calls:
  assumes "\<forall>c. ClassifierCall c \<in> set (lm_log st) \<longrightarrow> strip c \<noteq> []"
    and "\<forall>c g. ExtractorCall c g \<in> set (lm_log st) \<longrightarrow> strip c \<noteq> []"
  shows "(\<forall>c. ClassifierCall c \<in> set (lm_log (process_records p recs st)) \<longrightarrow> strip c \<noteq> []) \<and>
         (\<forall>c g. ExtractorCall c g \<in> set (lm_log (process_records p recs st)) \<longrightarrow> strip c \<noteq> [])"
  using assms
proof (induction recs arbitrary: st)
  case Nil
  then show ?case by simp
next
  case (Cons rec recs)
  from process_record_calls [OF Cons.prems, of p rec]
  have "\<forall>c. ClassifierCall c \<in> set (lm_log (process_record p rec st)) \<longrightarrow> strip c \<noteq> []"
    "\<forall>c g. ExtractorCall c g \<in> set (lm_log (process_record p rec st)) \<longrightarrow> strip c \<noteq> []"
    by blast+
  from Cons.IH [OF this] show ?case by simp
qed

lemma process_records_filter:
  "process_records p recs st =
   process_records p (filter (\<lambda>r. strip (row_content r) \<noteq> []) recs) st"
  by (induction recs arbitrary: st) (simp_all add: process_record_blank)

text \<open>
  Claim C9.  A row whose \<open>raw_content\<close> strips to the empty string is skipped entirely:
  processing it changes nothing (no model call is logged, no line is written, the counter
  stays), a batch runs exactly as the batch without its blank rows, and in a whole run no
  classifier call and no extractor call is ever made on content that strips to the empty
  string.
\<close>

theorem blank_rows_skipped:
  "(strip (row_content rec) = [] \<longrightarrow>
      process_record p rec st = st \<and>
      process_records p (pre @ rec # post) st = process_records p (pre @ post) st) \<and>
   process_records p recs st =
     process_records p (filter (\<lambda>r. strip (row_content r) \<noteq> []) recs) st \<and>
   (\<forall>c. ClassifierCall c \<in> set (lm_log (process_records p recs initial_state)) \<longrightarrow> strip c \<noteq> []) \<and>
   (\<forall>c g. ExtractorCall c g \<in> set (lm_log (process_records p recs initial_state)) \<longrightarrow> strip c \<noteq> [])"
proof -
  have "process_records p (pre @ rec # post) st = process_records p (pre @ post) st"
    if "strip (row_content rec) = []"
    using that by (simp add: process_records_append process_record_blank)
  moreover have "(\<forall>c. ClassifierCall c \<in> set (lm_log (process_records p recs initial_state)) \<longrightarrow> strip c \<noteq> []) \<and>
   (\<forall>c g. ExtractorCall c g \<in> set (lm_log (process_records p recs initial_state)) \<longrightarrow> strip c \<noteq> [])"
    by (rule process_records_calls) (simp_all add: initial_state_def)
  ultimately show ?thesis
    using process_records_filter [of p recs st] by (simp add: process_record_blank)
qed

theorem blank_rows_skipped_witness:
  "strip (row_content row_blank) = [] \<and>
   process_record (constant_pipeline (Some label_A)
       \<lparr>extraction.title = [84], short_summary = [83], detailed_summary = points_C\<rparr>) row_blank initial_state
     = initial_state \<and>
   lm_log (process_records (constant_pipeline (Some label_A)
       \<lparr>extraction.title = [84], short_summary = [83], detailed_summary = points_C\<rparr>)
       ([row_A] @ row_blank # []) initial_state)
     = [ClassifierCall article_A, ExtractorCall article_A (TARGET_CATEGORIES ! 2)] \<and>
   written (process_records (constant_pipeline (Some label_A)
       \<lparr>extraction.title = [84], short_summary = [83], detailed_summary = points_C\<rparr>)
       ([row_A] @ row_blank # []) initial_state) = 1"
proof -
  let ?p = "constant_pipeline (Some label_A)
       \<lparr>extraction.title = [84], short_summary = [83], detailed_summary = points_C\<rparr>"
  have b: "strip (row_content row_blank) = []"
    by (simp add: row_content_def row_blank_def strip_def is_space_def)
  from blank_rows_skipped [of row_blank ?p initial_state "[row_A]" "[]"] b
  have 1: "process_record ?p row_blank initial_state = initial_state"
    and 2: "process_records ?p ([row_A] @ row_blank # []) initial_state = process_records ?p ([row_A] @ []) initial_state"
    by blast+
  have a: "strip (row_content row_A) \<noteq> []" by (simp add: row_A_content)
  have n: "normalized ?p (row_content row_A) (lm_log initial_state) \<in> set TARGET_CATEGORIES"
    by (rule scenario_accepts)
  from process_record_accepted [OF a n] obtain w where
    "process_record ?p row_A initial_state =
       initial_state\<lparr>lm_log := lm_log initial_state @ [ClassifierCall (row_content row_A),
                ExtractorCall (row_content row_A) (normalized ?p (row_content row_A) (lm_log initial_state))],
              sink := sink initial_state @ [w], written := written initial_state + 1\<rparr>"
    by blast
  then have 3: "lm_log (process_records ?p ([row_A] @ []) initial_state) = [ClassifierCall article_A, ExtractorCall article_A (TARGET_CATEGORIES ! 2)]"
    "written (process_records ?p ([row_A] @ []) initial_state) = 1"
    by (simp_all add: initial_state_def row_A_content scenario_accepts)
  from b 1 2 3 show ?thesis by simp
qed

section \<open>The metric and the optimizer call\<close>

lemma evaluation_metric_iff:
  "evaluation_metric gold pred \<longleftrightarrow>
     py_value (safe_get pred ''category'') = Example.category gold \<and>
     truthy (safe_get pred ''detailed_summary'')"
  by (simp add: evaluation_metric_def)

lemma truthy_iff: "truthy v \<longleftrightarrow> v \<noteq> None \<and> v \<noteq> Some []"
  by (cases v) (simp_all add: truthy_def)

text \<open>
  Claim C7.  The metric is true exactly when the predicted category equals the gold
  category and the predicted detailed summary is neither missing nor empty; for string
  fields that is equality of the two category strings and a non-empty summary string.
  Nothing else has a part in it: two predictions that agree on \<open>category\<close> and
  \<open>detailed_summary\<close>, judged against two examples with the same category, get the same
  value; in particular the title and the short summary of the prediction and of the gold
  example can be changed at will.
\<close>

theorem evaluation_metric_correct:
  "(evaluation_metric gold pred \<longleftrightarrow>
      py_value (safe_get pred ''category'') = Example.category gold \<and>
      safe_get pred ''detailed_summary'' \<noteq> None \<and> safe_get pred ''detailed_summary'' \<noteq> Some []) \<and>
   (\<forall>g D. safe_get pred ''category'' = Some g \<and> safe_get pred ''detailed_summary'' = Some D \<longrightarrow>
      (evaluation_metric gold pred \<longleftrightarrow> Example.category gold = JString g \<and> D \<noteq> [])) \<and>
   (safe_get pred ''category'' = safe_get pred' ''category'' \<and>
    safe_get pred ''detailed_summary'' = safe_get pred' ''detailed_summary'' \<and>
    Example.category gold = Example.category gold' \<longrightarrow>
      evaluation_metric gold pred = evaluation_metric gold' pred') \<and>
   (\<forall>t s. evaluation_metric gold (PredDict (d(''title'' := t, ''short_summary'' := s))) =
           evaluation_metric gold (PredDict d)) \<and>
   (\<forall>t s. evaluation_metric (gold\<lparr>Example.title := t, Example.short_summary := s\<rparr>) pred =
           evaluation_metric gold pred)"
proof -
  have 1: "evaluation_metric gold pred \<longleftrightarrow>
      py_value (safe_get pred ''category'') = Example.category gold \<and>
      safe_get pred ''detailed_summary'' \<noteq> None \<and> safe_get pred ''detailed_summary'' \<noteq> Some []"
    by (simp add: evaluation_metric_iff truthy_iff)
  have 2: "\<forall>g D. safe_get pred ''category'' = Some g \<and> safe_get pred ''detailed_summary'' = Some D \<longrightarrow>
      (evaluation_metric gold pred \<longleftrightarrow> Example.category gold = JString g \<and> D \<noteq> [])"
    by (auto simp: evaluation_metric_iff truthy_def py_value_def)
  have 3: "safe_get pred ''category'' = safe_get pred' ''category'' \<and>
    safe_get pred ''detailed_summary'' = safe_get pred' ''detailed_summary'' \<and>
    Example.category gold = Example.category gold' \<longrightarrow>
      evaluation_metric gold pred = evaluation_metric gold' pred'"
    by (simp add: evaluation_metric_iff)
  have 4: "\<forall>t s. evaluation_metric gold (PredDict (d(''title'' := t, ''short_summary'' := s))) =
           evaluation_metric gold (PredDict d)"
    by (simp add: evaluation_metric_iff safe_get_def dict_get_def)
  have 5: "\<forall>t s. evaluation_metric (gold\<lparr>Example.title := t, Example.short_summary := s\<rparr>) pred =
           evaluation_metric gold pred"
    by (simp add: evaluation_metric_iff)
  from 1 2 3 4 5 show ?thesis by blast
qed

theorem evaluation_metric_correct_witness:
  "safe_get (PredDict [''category'' \<mapsto> Some (TARGET_CATEGORIES ! 2), ''title'' \<mapsto> Some [],
                       ''detailed_summary'' \<mapsto> Some points_C]) ''category'' = Some (TARGET_CATEGORIES ! 2) \<and>
   safe_get (PredDict [''category'' \<mapsto> Some (TARGET_CATEGORIES ! 2), ''title'' \<mapsto> Some [],
                       ''detailed_summary'' \<mapsto> Some points_C]) ''detailed_summary'' = Some points_C \<and>
   evaluation_metric example_A
     (PredDict [''category'' \<mapsto> Some (TARGET_CATEGORIES ! 2), ''title'' \<mapsto> Some [],
                ''detailed_summary'' \<mapsto> Some points_C]) \<and>
   \<not> evaluation_metric example_A
     (PredDict [''category'' \<mapsto> Some (TARGET_CATEGORIES ! 2), ''title'' \<mapsto> Some [84],
                ''detailed_summary'' \<mapsto> Some []]) \<and>
   \<not> evaluation_metric example_A
     (PredDict [''category'' \<mapsto> Some (TARGET_CATEGORIES ! 0), ''title'' \<mapsto> Some [84],
                ''detailed_summary'' \<mapsto> Some points_C])"
proof -
  let ?ok = "PredDict [''category'' \<mapsto> Some (TARGET_CATEGORIES ! 2), ''title'' \<mapsto> Some [],
                ''detailed_summary'' \<mapsto> Some points_C]"
  let ?empty = "PredDict [''category'' \<mapsto> Some (TARGET_CATEGORIES ! 2), ''title'' \<mapsto> Some [84],
                ''detailed_summary'' \<mapsto> Some []]"
  let ?wrong = "PredDict [''category'' \<mapsto> Some (TARGET_CATEGORIES ! 0), ''title'' \<mapsto> Some [84],
                ''detailed_summary'' \<mapsto> Some points_C]"
  have g: "safe_get ?ok ''category'' = Some (TARGET_CATEGORIES ! 2)"
    "safe_get ?ok ''detailed_summary'' = Some points_C"
    "safe_get ?empty ''category'' = Some (TARGET_CATEGORIES ! 2)"
    "safe_get ?empty ''detailed_summary'' = Some []"
    "safe_get ?wrong ''category'' = Some (TARGET_CATEGORIES ! 0)"
    "safe_get ?wrong ''detailed_summary'' = Some points_C"
    by (simp_all add: safe_get_def dict_get_def)
  have c: "Example.category example_A = JString (TARGET_CATEGORIES ! 2)"
    "TARGET_CATEGORIES ! 2 \<noteq> TARGET_CATEGORIES ! 0" "points_C \<noteq> []"
    by (simp_all add: example_A_def TARGET_CATEGORIES_def points_C_def)
  from evaluation_metric_correct [of example_A ?ok] g(1,2) c
  have 1: "evaluation_metric example_A ?ok" by blast
  from evaluation_metric_correct [of example_A ?empty] g(3,4) c
  have 2: "\<not> evaluation_metric example_A ?empty" by blast
  from evaluation_metric_correct [of example_A ?wrong] g(5,6) c
  have 3: "\<not> evaluation_metric example_A ?wrong" by (metis json.inject(3))
  from g(1,2) 1 2 3 show ?thesis by blast
qed

text \<open>
  Claim C10 fails on the code.  The body of the metric is false on a \<open>None\<close> prediction,
  but the metric cannot be called the way the optimizer calls it: \<open>**_\<close> takes further
  keyword arguments only, so a call with a third positional argument (the trace) raises
  \<open>TypeError\<close> before the body runs, whatever the prediction is, also for the \<open>None\<close> of
  a gated article.  Passed by keyword, the same argument is absorbed and the answer for
  \<open>None\<close> is false.  The body is moreover true for a prediction that lacks \<open>category\<close>
  when the gold category is null and the detailed summary is not empty.
\<close>

theorem evaluation_metric_raises_on_trace:
  "call_evaluation_metric gold pred (x # extra) kwargs = Inl TypeError \<and>
   call_evaluation_metric example_A PredNone [Object] [] = Inl TypeError \<and>
   call_evaluation_metric gold PredNone [] [(''trace'', x)] = Inr False \<and>
   call_evaluation_metric gold PredNone [] [] = Inr False \<and>
   evaluation_metric (example_A\<lparr>Example.category := JNull\<rparr>)
     (PredDict [''detailed_summary'' \<mapsto> Some points_C])"
proof -
  have none: "evaluation_metric gold PredNone = False"
    by (simp add: evaluation_metric_iff safe_get_def truthy_def)
  have 1: "call_evaluation_metric gold pred (x # extra) kwargs = Inl TypeError"
    "call_evaluation_metric example_A PredNone [Object] [] = Inl TypeError"
    by (simp_all add: call_evaluation_metric_def)
  have 2: "call_evaluation_metric gold PredNone [] [(''trace'', x)] = Inr False"
    "call_evaluation_metric gold PredNone [] [] = Inr False"
    by (simp_all add: call_evaluation_metric_def none)
  have 3: "evaluation_metric (example_A\<lparr>Example.category := JNull\<rparr>)
     (PredDict [''detailed_summary'' \<mapsto> Some points_C])"
    by (simp add: evaluation_metric_iff safe_get_def dict_get_def py_value_def truthy_def
        points_C_def)
  from 1 2 3 show ?thesis by blast
qed

subsection \<open>What \<open>optimize.py\<close> does before it calls the library\<close>

lemma build_examples_empty: "build_examples items = Inr [] \<longleftrightarrow> items = []"
  by (cases items) (auto split: sum.splits)

lemma items_of_empty:
  "items_of raw = Inr [] \<longleftrightarrow> raw = JArray [] \<or> raw = JString []"
  by (cases raw) (auto simp: items_of_def)

lemma load_training_examples_empty:
  "load_training_examples source = Inr [] \<longleftrightarrow>
     source = Parsed (JArray []) \<or> source = Parsed (JString [])"
proof (cases source)
  case (Parsed raw)
  show ?thesis
  proof (cases "items_of raw")
    case (Inl e)
    with Parsed items_of_empty [of raw] show ?thesis
      by (auto simp: load_training_examples_def)
  next
    case (Inr items)
    with Parsed items_of_empty [of raw] show ?thesis
      by (auto simp: load_training_examples_def build_examples_empty)
  qed
qed (simp_all add: load_training_examples_def)

text \<open>
  When the loader raises (the example file is missing or unreadable, or an item of it is
  not an object with the five fields), \<open>main\<close> raises the same error and has made no call
  to the library, hence no model call.
\<close>

lemma main_loader_error:
  "load_training_examples source = Inl e \<Longrightarrow> main compile save source = (Raised e, [])"
  by (simp add: main_def)

lemma main_missing_source:
  "main compile save Missing = (Raised FileNotFoundError, [])"
  "main compile save Unparseable = (Raised JSONDecodeError, [])"
  by (simp_all add: main_def load_training_examples_def)


lemma main_outcome:
  assumes "load_training_examples source = Inr trainset"
  shows "fst (main compile save source) =
           (case compile \<lparr>metric = call_evaluation_metric,
                           max_bootstrapped_demos = min 4 (length trainset),
                           max_labeled_demos = length trainset\<rparr> trainset of
              Inl x \<Rightarrow> Propagated x
            | Inr m \<Rightarrow> (case save m of Some x \<Rightarrow> Propagated x | None \<Rightarrow> Returned))"
  using assms by (simp add: main_def Let_def split: sum.splits option.splits)

lemma main_empty_training_set:
  "load_training_examples (Parsed (JArray [])) = Inr []"
  "\<exists>rest. snd (main compile save (Parsed (JArray []))) =
     Compile \<lparr>metric = call_evaluation_metric, max_bootstrapped_demos = 0,
              max_labeled_demos = 0\<rparr> [] # rest"
  by (simp_all add: main_def load_training_examples_def items_of_def Let_def
      split: sum.splits option.splits)



end
